theory Spec2Isabelle
  imports Complex_Main "HOL-Library.AList" "HOL-Library.Word"
begin

section \<open>Python dictionaries\<close>

text \<open>
  A Python \<open>dict\<close> keeps its keys in insertion order and holds each key once. It is
  modelled as an association list: \<open>d.get(k)\<close> is \<open>map_of\<close>, \<open>d[k] = v\<close> is
  \<open>AList.update\<close> (it replaces the value in place when the key is there and appends the
  pair otherwise), \<open>len(d)\<close> counts the distinct keys.
\<close>

type_synonym ('k, 'v) dict = "('k \<times> 'v) list"

definition dict_get :: "('k, 'v) dict \<Rightarrow> 'k \<Rightarrow> 'v option" where
  "dict_get d k = map_of d k"

definition dict_contains :: "'k \<Rightarrow> ('k, 'v) dict \<Rightarrow> bool" where
  "dict_contains k d = (k \<in> set (map fst d))"

definition dict_set :: "('k, 'v) dict \<Rightarrow> 'k \<Rightarrow> 'v \<Rightarrow> ('k, 'v) dict" where
  "dict_set d k v = AList.update k v d"

definition dict_len :: "('k, 'v) dict \<Rightarrow> nat" where
  "dict_len d = length (remdups (map fst d))"

text \<open>A dict comprehension \<open>{k: v for ...}\<close> stores the pairs one after the other.\<close>

definition dict_of_pairs :: "('k \<times> 'v) list \<Rightarrow> ('k, 'v) dict" where
  "dict_of_pairs ps = fold (\<lambda>(k, v) d. dict_set d k v) ps []"

section \<open>Python values\<close>

text \<open>
  A Python \<open>str\<close> is modelled as a \<open>string\<close>. Text outside ASCII (the Unicode
  glyphs of the display table) is held as the bytes of its UTF-8 encoding, which keeps
  equality and emptiness of strings as they are in Python.

  \<open>str(n)\<close> of an integer is its decimal rendering, with a leading minus sign for a
  negative one.
\<close>

definition digit_char :: "nat \<Rightarrow> char" where
  "digit_char d = ''0123456789'' ! d"

fun str_nat :: "nat \<Rightarrow> string" where
  "str_nat n = (if n < 10 then [digit_char n] else str_nat (n div 10) @ [digit_char (n mod 10)])"

declare str_nat.simps [simp del]

definition str_int :: "int \<Rightarrow> string" where
  "str_int i = (if i < 0 then CHR ''-'' # str_nat (nat (- i)) else str_nat (nat i))"

text \<open>\<open>d.get(k, default)\<close>.\<close>

definition dict_get_default :: "('k, 'v) dict \<Rightarrow> 'k \<Rightarrow> 'v \<Rightarrow> 'v" where
  "dict_get_default d k dflt = (case dict_get d k of None \<Rightarrow> dflt | Some v \<Rightarrow> v)"

section \<open>Model\_Training/train\_model.py\<close>

text \<open>The exceptions the training script's own code can raise.\<close>

datatype train_error = KeyError int | ValueError

text \<open>\<open>d[k]\<close> on a dict keyed by integers: a missing key raises \<open>KeyError\<close>.\<close>

definition dict_index :: "(int, 'v) dict \<Rightarrow> int \<Rightarrow> train_error + 'v" where
  "dict_index d k = (case dict_get d k of None \<Rightarrow> Inl (KeyError k) | Some v \<Rightarrow> Inr v)"

text \<open>A list comprehension whose element expression can raise: the first raise ends it.\<close>

fun try_map :: "('a \<Rightarrow> 'e + 'b) \<Rightarrow> 'a list \<Rightarrow> 'e + 'b list" where
  "try_map f [] = Inr []"
| "try_map f (x # xs) =
     (case f x of
        Inl e \<Rightarrow> Inl e
      | Inr y \<Rightarrow> (case try_map f xs of Inl e \<Rightarrow> Inl e | Inr ys \<Rightarrow> Inr (y # ys)))"

subsection \<open>remap\_labels\<close>

text \<open>
  The labels given to \<open>remap_labels\<close> are the array that \<open>load_hasy_dataset\<close>
  builds with \<open>dtype=np.int32\<close> (line 57): a list of 32-bit words, read as signed
  integers. \<open>int(x)\<close> of such a value is \<open>sint x\<close>.

  \<open>np.unique\<close> returns the sorted unique elements of the array: it sorts the array
  by value and keeps the first element of every run of equal values.
\<close>

definition np_unique :: "32 word list \<Rightarrow> 32 word list" where
  "np_unique a = remdups_adj (sort_key sint a)"

text \<open>
  \<open>remap_labels\<close>, lines 69 to 74. The keys of \<open>forward\<close> and the values of
  \<open>reverse\<close> are Python integers (\<open>int(old)\<close>); the positions given by
  \<open>enumerate\<close> are natural numbers. The result array has dtype \<open>int32\<close>; its values
  are positions below the number of distinct identifiers, and the model keeps them as
  natural numbers.
\<close>

definition remap_labels ::
  "32 word list \<Rightarrow> train_error + (nat list \<times> (int, nat) dict \<times> (nat, int) dict)" where
  "remap_labels labels =
     (let unique = np_unique labels;
          forward = dict_of_pairs (map (\<lambda>(new, old). (sint old, new)) (enumerate 0 unique));
          reverse = dict_of_pairs (map (\<lambda>(new, old). (new, sint old)) (enumerate 0 unique))
      in case try_map (\<lambda>l. dict_index forward (sint l)) labels of
           Inl e \<Rightarrow> Inl e
         | Inr new_labels \<Rightarrow> Inr (new_labels, forward, reverse))"

subsection \<open>The label table\<close>

text \<open>
  \<open>labels_csv\<close> is a pandas data frame; \<open>iterrows\<close> yields its rows in order. A
  cell of a text column holds a string, or NaN where the field is missing;
  \<open>str\<close> of NaN is \<open>"nan"\<close>. The \<open>symbol_id\<close> column is numeric: a cell
  holds an integer, or NaN, on which \<open>int\<close> raises \<open>ValueError\<close>. The
  \<open>unicode\<close> column is optional: \<open>row.get("unicode", "")\<close> is the empty string
  for a table without it.
\<close>

datatype cell = NaN | Str string

fun py_str :: "cell \<Rightarrow> string" where
  "py_str NaN = ''nan''"
| "py_str (Str s) = s"

definition py_int :: "int option \<Rightarrow> train_error + int" where
  "py_int c = (case c of None \<Rightarrow> Inl ValueError | Some i \<Rightarrow> Inr i)"

record row =
  row_symbol_id :: "int option"
  row_latex :: cell
  row_unicode :: "cell option"

definition row_get_unicode :: "row \<Rightarrow> cell" where
  "row_get_unicode r = (case row_unicode r of None \<Rightarrow> Str [] | Some c \<Rightarrow> c)"

subsection \<open>create\_label\_mapping\<close>

text \<open>A LaTeX command: a backslash followed by the command's name.\<close>

definition cmd :: "string \<Rightarrow> string" where
  "cmd name = CHR 0x5C # name"

text \<open>
  The static table of lines 84 to 143, in the order of the dict literal: Greek letters,
  operators, relations, logic, sets, arrows, geometry, then the digits, the lowercase and
  the uppercase letters (each mapped to itself), then the basic symbols.
\<close>

definition latex_to_unicode :: "(string, string) dict" where
  "latex_to_unicode = dict_of_pairs (
     [(cmd ''alpha'', [CHR 0xCE, CHR 0xB1]),
      (cmd ''beta'', [CHR 0xCE, CHR 0xB2]),
      (cmd ''gamma'', [CHR 0xCE, CHR 0xB3]),
      (cmd ''delta'', [CHR 0xCE, CHR 0xB4]),
      (cmd ''epsilon'', [CHR 0xCE, CHR 0xB5]),
      (cmd ''zeta'', [CHR 0xCE, CHR 0xB6]),
      (cmd ''eta'', [CHR 0xCE, CHR 0xB7]),
      (cmd ''theta'', [CHR 0xCE, CHR 0xB8]),
      (cmd ''iota'', [CHR 0xCE, CHR 0xB9]),
      (cmd ''kappa'', [CHR 0xCE, CHR 0xBA]),
      (cmd ''lambda'', [CHR 0xCE, CHR 0xBB]),
      (cmd ''mu'', [CHR 0xCE, CHR 0xBC]),
      (cmd ''nu'', [CHR 0xCE, CHR 0xBD]),
      (cmd ''xi'', [CHR 0xCE, CHR 0xBE]),
      (cmd ''pi'', [CHR 0xCF, CHR 0x80]),
      (cmd ''rho'', [CHR 0xCF, CHR 0x81]),
      (cmd ''sigma'', [CHR 0xCF, CHR 0x83]),
      (cmd ''tau'', [CHR 0xCF, CHR 0x84]),
      (cmd ''upsilon'', [CHR 0xCF, CHR 0x85]),
      (cmd ''phi'', [CHR 0xCF, CHR 0x86]),
      (cmd ''chi'', [CHR 0xCF, CHR 0x87]),
      (cmd ''psi'', [CHR 0xCF, CHR 0x88]),
      (cmd ''omega'', [CHR 0xCF, CHR 0x89]),
      (cmd ''Gamma'', [CHR 0xCE, CHR 0x93]),
      (cmd ''Delta'', [CHR 0xCE, CHR 0x94]),
      (cmd ''Theta'', [CHR 0xCE, CHR 0x98]),
      (cmd ''Lambda'', [CHR 0xCE, CHR 0x9B]),
      (cmd ''Xi'', [CHR 0xCE, CHR 0x9E]),
      (cmd ''Pi'', [CHR 0xCE, CHR 0xA0]),
      (cmd ''Sigma'', [CHR 0xCE, CHR 0xA3]),
      (cmd ''Phi'', [CHR 0xCE, CHR 0xA6]),
      (cmd ''Psi'', [CHR 0xCE, CHR 0xA8]),
      (cmd ''Omega'', [CHR 0xCE, CHR 0xA9]),
      (cmd ''sum'', [CHR 0xE2, CHR 0x88, CHR 0x91]),
      (cmd ''prod'', [CHR 0xE2, CHR 0x88, CHR 0x8F]),
      (cmd ''int'', [CHR 0xE2, CHR 0x88, CHR 0xAB]),
      (cmd ''oint'', [CHR 0xE2, CHR 0x88, CHR 0xAE]),
      (cmd ''infty'', [CHR 0xE2, CHR 0x88, CHR 0x9E]),
      (cmd ''partial'', [CHR 0xE2, CHR 0x88, CHR 0x82]),
      (cmd ''nabla'', [CHR 0xE2, CHR 0x88, CHR 0x87]),
      (cmd ''pm'', [CHR 0xC2, CHR 0xB1]),
      (cmd ''mp'', [CHR 0xE2, CHR 0x88, CHR 0x93]),
      (cmd ''times'', [CHR 0xC3, CHR 0x97]),
      (cmd ''div'', [CHR 0xC3, CHR 0xB7]),
      (cmd ''cdot'', [CHR 0xC2, CHR 0xB7]),
      (cmd ''ast'', [CHR 0xE2, CHR 0x88, CHR 0x97]),
      (cmd ''neq'', [CHR 0xE2, CHR 0x89, CHR 0xA0]),
      (cmd ''leq'', [CHR 0xE2, CHR 0x89, CHR 0xA4]),
      (cmd ''geq'', [CHR 0xE2, CHR 0x89, CHR 0xA5]),
      (cmd ''ll'', [CHR 0xE2, CHR 0x89, CHR 0xAA]),
      (cmd ''gg'', [CHR 0xE2, CHR 0x89, CHR 0xAB]),
      (cmd ''approx'', [CHR 0xE2, CHR 0x89, CHR 0x88]),
      (cmd ''equiv'', [CHR 0xE2, CHR 0x89, CHR 0xA1]),
      (cmd ''sim'', [CHR 0xE2, CHR 0x88, CHR 0xBC]),
      (cmd ''simeq'', [CHR 0xE2, CHR 0x89, CHR 0x83]),
      (cmd ''propto'', [CHR 0xE2, CHR 0x88, CHR 0x9D]),
      (cmd ''forall'', [CHR 0xE2, CHR 0x88, CHR 0x80]),
      (cmd ''exists'', [CHR 0xE2, CHR 0x88, CHR 0x83]),
      (cmd ''neg'', [CHR 0xC2, CHR 0xAC]),
      (cmd ''wedge'', [CHR 0xE2, CHR 0x88, CHR 0xA7]),
      (cmd ''vee'', [CHR 0xE2, CHR 0x88, CHR 0xA8]),
      (cmd ''emptyset'', [CHR 0xE2, CHR 0x88, CHR 0x85]),
      (cmd ''cap'', [CHR 0xE2, CHR 0x88, CHR 0xA9]),
      (cmd ''cup'', [CHR 0xE2, CHR 0x88, CHR 0xAA]),
      (cmd ''subset'', [CHR 0xE2, CHR 0x8A, CHR 0x82]),
      (cmd ''supset'', [CHR 0xE2, CHR 0x8A, CHR 0x83]),
      (cmd ''subseteq'', [CHR 0xE2, CHR 0x8A, CHR 0x86]),
      (cmd ''supseteq'', [CHR 0xE2, CHR 0x8A, CHR 0x87]),
      (cmd ''in'', [CHR 0xE2, CHR 0x88, CHR 0x88]),
      (cmd ''notin'', [CHR 0xE2, CHR 0x88, CHR 0x89]),
      (cmd ''ni'', [CHR 0xE2, CHR 0x88, CHR 0x8B]),
      (cmd ''rightarrow'', [CHR 0xE2, CHR 0x86, CHR 0x92]),
      (cmd ''leftarrow'', [CHR 0xE2, CHR 0x86, CHR 0x90]),
      (cmd ''uparrow'', [CHR 0xE2, CHR 0x86, CHR 0x91]),
      (cmd ''downarrow'', [CHR 0xE2, CHR 0x86, CHR 0x93]),
      (cmd ''Rightarrow'', [CHR 0xE2, CHR 0x87, CHR 0x92]),
      (cmd ''Leftarrow'', [CHR 0xE2, CHR 0x87, CHR 0x90]),
      (cmd ''leftrightarrow'', [CHR 0xE2, CHR 0x86, CHR 0x94]),
      (cmd ''Leftrightarrow'', [CHR 0xE2, CHR 0x87, CHR 0x94]),
      (cmd ''to'', [CHR 0xE2, CHR 0x86, CHR 0x92]),
      (cmd ''gets'', [CHR 0xE2, CHR 0x86, CHR 0x90]),
      (cmd ''mapsto'', [CHR 0xE2, CHR 0x86, CHR 0xA6]),
      (cmd ''angle'', [CHR 0xE2, CHR 0x88, CHR 0xA0]),
      (cmd ''perp'', [CHR 0xE2, CHR 0x8A, CHR 0xA5]),
      (cmd ''parallel'', [CHR 0xE2, CHR 0x88, CHR 0xA5]),
      (cmd ''triangle'', [CHR 0xE2, CHR 0x96, CHR 0xB3])] @
     map (\<lambda>c. ([c], [c])) ''0123456789'' @
     map (\<lambda>c. ([c], [c])) ''abcdefghijklmnopqrstuvwxyz'' @
     map (\<lambda>c. ([c], [c])) ''ABCDEFGHIJKLMNOPQRSTUVWXYZ'' @
     [(''+'', ''+''),
      (''-'', ''-''),
      (''='', ''=''),
      (''<'', ''<''),
      (''>'', ''>''),
      (''('', ''(''),
      ('')'', '')''),
      (''['', ''[''),
      ('']'', '']''),
      (''{'', ''{''),
      (''}'', ''}''),
      (''/'', ''/''),
      (''*'', ''*''),
      (''^'', ''^''),
      (''_'', ''_''),
      (''!'', ''!''),
      (''?'', ''?''),
      (''.'', ''.''),
      ('','', '',''),
      ('':'', '':''),
      ('';'', '';'')])"

text \<open>
  An entry of the label map is the dict \<open>{"latex": ..., "unicode": ...}\<close>; the label
  map is keyed by the identifier's decimal rendering.
\<close>

type_synonym entry = "(string, string) dict"
type_synonym label_table = "(string, entry) dict"

text \<open>
  The loop of lines 147 to 161, with the label map built so far passed along. A row
  whose key is already in the map is skipped (\<open>continue\<close>).
\<close>

fun label_rows :: "row list \<Rightarrow> label_table \<Rightarrow> train_error + label_table" where
  "label_rows [] label_map = Inr label_map"
| "label_rows (r # rows) label_map =
     (case py_int (row_symbol_id r) of
        Inl e \<Rightarrow> Inl e
      | Inr i \<Rightarrow>
          (let sid = str_int i in
           if dict_contains sid label_map then label_rows rows label_map
           else
             (let latex = py_str (row_latex r);
                  unicode_val = py_str (row_get_unicode r);
                  unicode_val =
                    (if unicode_val = [] \<or> unicode_val = ''nan''
                     then dict_get_default latex_to_unicode latex []
                     else unicode_val)
              in label_rows rows
                   (dict_set label_map sid [(''latex'', latex), (''unicode'', unicode_val)]))))"

text \<open>
  \<open>create_label_mapping\<close> returns the label map it has also written to
  \<open>labels.json\<close>; the directory and the file are not part of the model.
\<close>

definition create_label_mapping :: "row list \<Rightarrow> train_error + label_table" where
  "create_label_mapping labels_csv = label_rows labels_csv []"

section \<open>web\_app/app.py\<close>

text \<open>
  A Python \<open>float\<close> is modelled by the rational number it denotes: every finite
  double is one, and doubles compare as the numbers they denote. The grey values
  divided by \<open>255.0\<close> are kept as the exact quotients. The \<open>print\<close> calls and the
  creation of the upload folder are not part of the model.

  The result of a floating-point operation is the exact result rounded to the nearest
  double, ties to the even significand; a result of magnitude \<open>2 ^ 1024\<close> or more is
  an infinity. \<open>bit_length\<close> is Python's \<open>int.bit_length\<close>, \<open>floor_log2 x\<close> the
  exponent \<open>e\<close> with \<open>2 ^ e \<le> x < 2 ^ (e + 1)\<close> of a positive \<open>x\<close>. A double has
  53 significant bits and its exponent is at least \<open>- 1022\<close>, so the doubles next to a
  positive \<open>x\<close> are the multiples of \<open>2 ^ (max e (- 1022) - 52)\<close>.
\<close>

fun bit_length :: "nat \<Rightarrow> nat" where
  "bit_length n = (if n = 0 then 0 else Suc (bit_length (n div 2)))"

declare bit_length.simps [simp del]

definition pow2 :: "int \<Rightarrow> rat" where
  "pow2 k = (if 0 \<le> k then 2 ^ nat k else 1 / 2 ^ nat (- k))"

definition floor_log2 :: "rat \<Rightarrow> int" where
  "floor_log2 x =
     (if 1 \<le> x then int (bit_length (nat \<lfloor>x\<rfloor>)) - 1
      else - int (bit_length (nat (\<lceil>1 / x\<rceil> - 1))))"

definition round_half_even :: "rat \<Rightarrow> int" where
  "round_half_even x =
     (let f = \<lfloor>x\<rfloor>; d = x - of_int f
      in if d < 1 / 2 then f else if 1 / 2 < d then f + 1 else if even f then f else f + 1)"

datatype double = Finite rat | Infinity | MinusInfinity

definition round_positive :: "rat \<Rightarrow> double" where
  "round_positive x =
     (let e = max (floor_log2 x) (- 1022);
          ulp = pow2 (e - 52);
          r = of_int (round_half_even (x / ulp)) * ulp
      in if pow2 1024 \<le> r then Infinity else Finite r)"

definition round_double :: "rat \<Rightarrow> double" where
  "round_double x =
     (if x = 0 then Finite 0
      else if 0 < x then round_positive x
      else (case round_positive (- x) of
              Finite r \<Rightarrow> Finite (- r)
            | Infinity \<Rightarrow> MinusInfinity
            | MinusInfinity \<Rightarrow> Infinity))"

text \<open>\<open>a * b\<close> on two floats.\<close>

definition float_mul :: "rat \<Rightarrow> rat \<Rightarrow> double" where
  "float_mul a b = round_double (a * b)"

text \<open>
  \<open>CONFIDENCE_THRESHOLD = 0.85\<close>: the constant is the double that the literal denotes,
  \<open>7656119366529843 / 2 ^ 53\<close>, a little below 85 hundredths. It is compared with a
  confidence the model returns, which can be that very double.
\<close>

definition CONFIDENCE_THRESHOLD :: rat where
  "CONFIDENCE_THRESHOLD = 7656119366529843 / 2 ^ 53"

text \<open>
  The thresholds of the pre-filter and the 0.85 of the foreground test are the decimals
  of the source. They are compared with a standard deviation, with a count divided by
  1024 and with grey values divided by 255. No double lies between one of these
  decimals and the double its literal denotes, none of the decimals is a double itself,
  and neither a count divided by 1024 nor a grey value divided by 255 is one of the
  literals' doubles, so the comparisons with the decimals are the comparisons the code
  makes.
\<close>

definition MIN_FOREGROUND_FRACTION :: rat where
  "MIN_FOREGROUND_FRACTION = 2 / 100"

definition MAX_FOREGROUND_FRACTION :: rat where
  "MAX_FOREGROUND_FRACTION = 60 / 100"

definition MIN_STD_DEV :: rat where
  "MIN_STD_DEV = 5 / 100"

text \<open>An exception caught by \<open>except Exception as e\<close>; \<open>str(e)\<close> is its message.\<close>

datatype exn = Exception string

fun exn_str :: "exn \<Rightarrow> string" where
  "exn_str (Exception msg) = msg"

text \<open>
  A response is the JSON object given to \<open>jsonify\<close> and the HTTP status: the one
  returned next to the object, or 200 when the view returns the object alone. A JSON
  number is \<open>JNum\<close> for a Python \<open>int\<close> and \<open>JFloat\<close> for the result of a float
  operation.
\<close>

datatype json = JBool bool | JStr string | JNum rat | JFloat double

type_synonym response = "(string, json) dict \<times> nat"

definition jsonify :: "(string, json) dict \<Rightarrow> response" where
  "jsonify body = (body, 200)"

text \<open>
  An image array of shape \<open>(1, 32, 32, 1)\<close> is a list of lists, one level per axis.
  The loaded Keras model is a function from such an array to the batch of prediction
  rows, or to the exception \<open>model.predict\<close> raises.
\<close>

type_synonym image = "rat list list list list"
type_synonym keras_model = "image \<Rightarrow> exn + rat list list"

record globals =
  g_model :: "keras_model option"
  g_labels :: label_table

text \<open>
  Lines 28 to 50: both globals are set at start-up from the outcome of \<open>load_model\<close>
  and of reading \<open>labels.json\<close>, each inside its own \<open>try\<close>. The labels file is a
  JSON object from class-index strings to objects with string fields.
\<close>

definition startup :: "exn + keras_model \<Rightarrow> exn + label_table \<Rightarrow> globals" where
  "startup load_model_result json_load_result =
     \<lparr>g_model = (case load_model_result of Inl e \<Rightarrow> None | Inr m \<Rightarrow> Some m),
      g_labels = (case json_load_result of Inl e \<Rightarrow> [] | Inr l \<Rightarrow> l)\<rparr>"

text \<open>
  The library calls whose results the code consumes. \<open>image_open_L_32\<close> is
  \<open>Image.open(io.BytesIO(b)).convert('L').resize((32, 32))\<close> read by \<open>np.array\<close>:
  the rows of 8-bit grey values of the resized image, or the exception raised for bytes
  that are no image. \<open>np_std\<close> is \<open>np.std\<close> on the squeezed array.
\<close>

record externals =
  image_open_L_32 :: "string \<Rightarrow> exn + 8 word list list"
  np_std :: "rat list list \<Rightarrow> rat"

record upload =
  filename :: string
  content :: string

record request =
  files :: "(string, upload) dict"

subsection \<open>preprocess\_image\<close>

fun chunks :: "nat \<Rightarrow> nat \<Rightarrow> 'a list \<Rightarrow> 'a list list" where
  "chunks 0 n xs = []"
| "chunks (Suc k) n xs = take n xs # chunks k n (drop n xs)"

text \<open>
  \<open>a.reshape(1, 32, 32, 1)\<close> of a two-dimensional array: the elements in row-major
  order, regrouped; \<open>ValueError\<close> when there are not \<open>1 * 32 * 32 * 1\<close> of them.
\<close>

definition reshape_1_32_32_1 :: "rat list list \<Rightarrow> exn + image" where
  "reshape_1_32_32_1 a =
     (let flat = concat a in
      if length flat = 1 * 32 * 32 * 1
      then Inr [chunks 32 32 (map (\<lambda>x. [x]) flat)]
      else Inl (Exception (''cannot reshape array of size '' @ str_nat (length flat) @
                           '' into shape (1,32,32,1)'')))"

text \<open>Lines 54 to 81; the \<open>except\<close> clause re-raises with a prefixed message.\<close>

definition preprocess_image :: "externals \<Rightarrow> upload \<Rightarrow> exn + image" where
  "preprocess_image ext image_file =
     (case image_open_L_32 ext (content image_file) of
        Inl e \<Rightarrow> Inl (Exception (''Error preprocessing image: '' @ exn_str e))
      | Inr img \<Rightarrow>
          (let img_array = map (map (\<lambda>p. rat_of_nat (unat p) / 255)) img in
           case reshape_1_32_32_1 img_array of
             Inl e \<Rightarrow> Inl (Exception (''Error preprocessing image: '' @ exn_str e))
           | Inr img_array \<Rightarrow> Inr img_array))"

subsection \<open>predict\<close>

text \<open>\<open>squeeze\<close> drops the two axes of length one and leaves the 32 rows of 32 values.\<close>

definition squeeze :: "image \<Rightarrow> rat list list" where
  "squeeze img_array = concat (map (map concat) img_array)"

text \<open>
  \<open>np.mean(flat < 0.85)\<close>: the number of elements below 0.85 divided by the number of
  elements.
\<close>

definition foreground_fraction_of :: "rat list list \<Rightarrow> rat" where
  "foreground_fraction_of flat =
     rat_of_nat (length (filter (\<lambda>x. x < 85 / 100) (concat flat))) /
     rat_of_nat (length (concat flat))"

text \<open>\<open>np.argmax\<close>: the first position of the largest value; \<open>ValueError\<close> on an empty row.\<close>

fun argmax_from :: "rat list \<Rightarrow> nat \<Rightarrow> nat \<Rightarrow> rat \<Rightarrow> nat" where
  "argmax_from [] i best v = best"
| "argmax_from (x # xs) i best v =
     (if v < x then argmax_from xs (Suc i) i x else argmax_from xs (Suc i) best v)"

definition np_argmax :: "rat list \<Rightarrow> exn + nat" where
  "np_argmax a =
     (case a of
        [] \<Rightarrow> Inl (Exception ''attempt to get argmax of an empty sequence'')
      | x # xs \<Rightarrow> Inr (argmax_from xs 1 0 x))"

text \<open>The responses of \<open>predict\<close>, in the order of the source.\<close>

definition model_not_loaded :: response where
  "model_not_loaded =
     ([(''success'', JBool False),
       (''error'', JStr ''Model not loaded. Please check server logs.'')], 500)"

definition no_image :: response where
  "no_image =
     ([(''success'', JBool False),
       (''error'', JStr ''No image provided in the request.'')], 400)"

definition unrecognized :: response where
  "unrecognized =
     jsonify [(''success'', JBool True),
              (''status'', JStr ''unrecognized''),
              (''message'', JStr ''No math symbol recognised.'')]"

definition label_mismatch :: "nat \<Rightarrow> response" where
  "label_mismatch top_idx =
     ([(''success'', JBool False),
       (''status'', JStr ''data_error''),
       (''error'', JStr (''Label file mismatch. Index '' @ str_nat top_idx @ '' not found.''))],
      500)"

definition empty_strings :: response where
  "empty_strings =
     ([(''success'', JBool False),
       (''status'', JStr ''data_error''),
       (''error'', JStr ''Label found, but both Unicode and LaTeX strings were empty.'')],
      500)"

definition recognized :: "string \<Rightarrow> string \<Rightarrow> rat \<Rightarrow> response" where
  "recognized recognized_unicode recognized_latex top_confidence =
     jsonify [(''success'', JBool True),
              (''status'', JStr ''recognized''),
              (''symbol'', JStr recognized_unicode),
              (''unicode'', JStr recognized_unicode),
              (''latex'', JStr recognized_latex),
              (''confidence'', JFloat (float_mul top_confidence 100))]"

definition internal_error :: "exn \<Rightarrow> response" where
  "internal_error e =
     ([(''success'', JBool False),
       (''error'', JStr (''An internal server error occurred: '' @ exn_str e))], 500)"

text \<open>
  The body of the \<open>try\<close> block, lines 96 to 171: the response it returns or the
  exception it raises, and whether \<open>model.predict\<close> was called.
\<close>

definition predict_try :: "externals \<Rightarrow> globals \<Rightarrow> request \<Rightarrow> (exn + response) \<times> bool" where
  "predict_try ext g req =
     (case g_model g of
        None \<Rightarrow> (Inr model_not_loaded, False)
      | Some model \<Rightarrow>
          (case dict_get (files req) ''image'' of
             None \<Rightarrow> (Inr no_image, False)
           | Some file \<Rightarrow>
               if filename file = [] then (Inr no_image, False)
               else
                 (case preprocess_image ext file of
                    Inl e \<Rightarrow> (Inl e, False)
                  | Inr img_array \<Rightarrow>
                      (let flat = squeeze img_array;
                           foreground_fraction = foreground_fraction_of flat;
                           std_dev = np_std ext flat
                       in if std_dev < MIN_STD_DEV \<or>
                             foreground_fraction < MIN_FOREGROUND_FRACTION \<or>
                             foreground_fraction > MAX_FOREGROUND_FRACTION
                          then (Inr unrecognized, False)
                          else
                            (case model img_array of
                               Inl e \<Rightarrow> (Inl e, True)
                             | Inr predictions \<Rightarrow>
                                 (case predictions of
                                    [] \<Rightarrow> (Inl (Exception ''index 0 is out of bounds''), True)
                                  | predictions_0 # _ \<Rightarrow>
                                      (case np_argmax predictions_0 of
                                         Inl e \<Rightarrow> (Inl e, True)
                                       | Inr top_idx \<Rightarrow>
                                           (let top_confidence = predictions_0 ! top_idx in
                                            case dict_get (g_labels g) (str_nat top_idx) of
                                              None \<Rightarrow> (Inr (label_mismatch top_idx), True)
                                            | Some symbol_info \<Rightarrow>
                                                (let recognized_unicode =
                                                       dict_get_default symbol_info ''unicode'' [];
                                                     recognized_latex =
                                                       dict_get_default symbol_info ''latex'' []
                                                 in if top_confidence \<ge> CONFIDENCE_THRESHOLD
                                                    then
                                                      if recognized_unicode = [] \<and>
                                                         recognized_latex = []
                                                      then (Inr empty_strings, True)
                                                      else (Inr (recognized recognized_unicode
                                                                   recognized_latex
                                                                   top_confidence), True)
                                                    else (Inr unrecognized, True))))))))))"

text \<open>
  \<open>predict\<close>: the \<open>except Exception\<close> clause of lines 174 to 180 turns every
  exception of the body into the internal-error response.
\<close>

record outcome =
  resp :: response
  model_ran :: bool

definition predict :: "externals \<Rightarrow> globals \<Rightarrow> request \<Rightarrow> outcome" where
  "predict ext g req =
     (case predict_try ext g req of
        (Inl e, called) \<Rightarrow> \<lparr>resp = internal_error e, model_ran = called\<rparr>
      | (Inr r, called) \<Rightarrow> \<lparr>resp = r, model_ran = called\<rparr>)"

subsection \<open>health\<close>

definition health :: "globals \<Rightarrow> response" where
  "health g =
     jsonify [(''status'', JStr ''healthy''),
              (''model_loaded'', JBool (g_model g \<noteq> None)),
              (''labels_loaded'', JBool (dict_len (g_labels g) > 0)),
              (''num_classes'', JNum (rat_of_nat (dict_len (g_labels g))))]"

section \<open>A worked request\<close>

text \<open>
  Inputs on which the theorems below are instantiated: an upload that decodes to a
  32 by 32 image whose first four rows are black and whose other rows are white (one
  eighth of the pixels is foreground), a standard deviation \<open>sd\<close> reported by
  \<open>np.std\<close>, a model with two classes that gives class 1 the probability \<open>c\<close>, and
  label tables with and without an entry for class 1.
\<close>

definition example_pixels :: "8 word list list" where
  "example_pixels = replicate 4 (replicate 32 0) @ replicate 28 (replicate 32 255)"

definition example_ext :: "rat \<Rightarrow> externals" where
  "example_ext sd =
     \<lparr>image_open_L_32 =
        (\<lambda>b. if b = ''PNG'' then Inr example_pixels
             else Inl (Exception ''cannot identify image file'')),
      np_std = (\<lambda>a. sd)\<rparr>"

definition example_model :: "rat \<Rightarrow> keras_model" where
  "example_model c = (\<lambda>a. Inr [[1 - c, c]])"

definition example_upload :: upload where
  "example_upload = \<lparr>filename = ''a.png'', content = ''PNG''\<rparr>"

definition example_request :: request where
  "example_request = \<lparr>files = [(''image'', example_upload)]\<rparr>"

definition example_labels :: label_table where
  "example_labels =
     [(''0'', [(''latex'', cmd ''alpha''), (''unicode'', [CHR 0xCE, CHR 0xB1])]),
      (''1'', [(''latex'', ''A''), (''unicode'', ''A'')])]"

text \<open>
  A label table with a repeated identifier, a table without a \<open>unicode\<close> column
  being the case of its first row, a missing Unicode value, a Unicode value that is kept
  and a missing LaTeX value.
\<close>

definition example_table :: "row list" where
  "example_table =
     [\<lparr>row_symbol_id = Some 31, row_latex = Str (cmd ''alpha''), row_unicode = None\<rparr>,
      \<lparr>row_symbol_id = Some 7, row_latex = Str ''A'', row_unicode = Some NaN\<rparr>,
      \<lparr>row_symbol_id = Some 31, row_latex = Str ''B'', row_unicode = Some (Str ''x'')\<rparr>,
      \<lparr>row_symbol_id = Some 9, row_latex = Str (cmd ''foo''), row_unicode = Some (Str ''q'')\<rparr>,
      \<lparr>row_symbol_id = Some 10, row_latex = NaN, row_unicode = Some (Str [])\<rparr>]"

definition example_label_map :: label_table where
  "example_label_map =
     [(''31'', [(''latex'', cmd ''alpha''), (''unicode'', [CHR 0xCE, CHR 0xB1])]),
      (''7'', [(''latex'', ''A''), (''unicode'', ''A'')]),
      (''9'', [(''latex'', cmd ''foo''), (''unicode'', ''q'')]),
      (''10'', [(''latex'', ''nan''), (''unicode'', [])])]"

section \<open>Reading a decimal rendering back\<close>

text \<open>
  The value of a string of decimal digits, and the entry that lines 152 to 161 store
  for a row; both serve to state and prove properties of the code above.
\<close>

definition digit_val :: "char \<Rightarrow> nat" where
  "digit_val c = of_char c - 48"

definition nat_of_str :: "string \<Rightarrow> nat" where
  "nat_of_str s = foldl (\<lambda>acc c. 10 * acc + digit_val c) 0 s"

definition row_entry :: "row \<Rightarrow> entry" where
  "row_entry r =
     [(''latex'', py_str (row_latex r)),
      (''unicode'',
         if py_str (row_get_unicode r) = [] \<or> py_str (row_get_unicode r) = ''nan''
         then (case dict_get latex_to_unicode (py_str (row_latex r)) of
                 None \<Rightarrow> [] | Some glyph \<Rightarrow> glyph)
         else py_str (row_get_unicode r))]"

section \<open>Properties of the dictionary model\<close>

lemma update_fresh: "k \<notin> fst ` set al \<Longrightarrow> AList.update k v al = al @ [(k, v)]"
  by (induction al) auto

lemma fold_dict_set_distinct:
  "distinct (map fst (acc @ ps)) \<Longrightarrow> fold (\<lambda>(k, v) d. dict_set d k v) ps acc = acc @ ps"
proof (induction ps arbitrary: acc)
  case Nil
  then show ?case by simp
next
  case (Cons p ps)
  obtain k v where p: "p = (k, v)" by (cases p)
  from Cons.prems have fresh: "k \<notin> fst ` set acc" by (auto simp: p)
  have "distinct (map fst ((acc @ [(k, v)]) @ ps))" using Cons.prems by (simp add: p)
  from Cons.IH[OF this] show ?case by (simp add: p dict_set_def update_fresh[OF fresh])
qed

lemma dict_of_pairs_distinct: "distinct (map fst ps) \<Longrightarrow> dict_of_pairs ps = ps"
  using fold_dict_set_distinct[of "[]" ps] by (simp add: dict_of_pairs_def)

section \<open>Properties of remap\_labels\<close>

lemma dict_get_eq: "dict_get d = map_of d"
  by (rule ext) (simp add: dict_get_def)

lemma sorted_remdups_adj_distinct: "sorted xs \<Longrightarrow> distinct (remdups_adj xs)"
  by (induction xs rule: remdups_adj.induct) (auto)

lemma inj_sint: "inj (sint :: 32 word \<Rightarrow> int)"
  by (rule injI) (rule signed_word_eqI)

lemma np_unique_sint: "map sint (np_unique a) = sorted_list_of_set (sint ` set a)"
proof (rule sorted_distinct_set_unique)
  have m: "map sint (np_unique a) = remdups_adj (map sint (sort_key sint a))"
    unfolding np_unique_def by (rule remdups_adj_map_injective[OF inj_sint, symmetric])
  show "sorted (map sint (np_unique a))"
    unfolding m by simp
  show "distinct (map sint (np_unique a))"
    unfolding m by (rule sorted_remdups_adj_distinct) simp
  show "set (map sint (np_unique a)) = set (sorted_list_of_set (sint ` set a))"
    by (simp add: np_unique_def)
qed simp_all

lemma np_unique_sint_distinct: "distinct (map sint (np_unique a))"
  unfolding np_unique_sint by simp

lemma np_unique_distinct: "distinct (np_unique a)"
  using np_unique_sint_distinct[of a] by (simp add: distinct_map)

lemma np_unique_length: "length (np_unique a) = card (set a)"
proof -
  have "length (map sint (np_unique a)) = card (sint ` set a)"
    unfolding np_unique_sint by simp
  also have "\<dots> = card (set a)"
    by (rule card_image) (rule inj_on_subset[OF inj_sint], simp)
  finally show ?thesis by simp
qed

lemma try_map_total:
  "(\<And>x. x \<in> set xs \<Longrightarrow> f x = Inr (g x)) \<Longrightarrow> try_map f xs = Inr (map g xs)"
  by (induction xs) auto

lemma map_swap_zip: "map (\<lambda>(i, x). (f x, i)) (zip js xs) = zip (map f xs) js"
  by (induction js xs rule: list_induct2') auto

lemma map_second_zip: "map (\<lambda>(i, x). (i, f x)) (zip js xs) = zip js (map f xs)"
  by (induction js xs rule: list_induct2') auto

lemma forward_eq:
  "dict_of_pairs (map (\<lambda>(new, old). (sint old, new)) (enumerate 0 (np_unique a))) =
     zip (sorted_list_of_set (sint ` set a)) [0..<card (set a)]"
proof -
  have e: "map (\<lambda>(new, old). (sint old, new)) (enumerate 0 (np_unique a)) =
             zip (map sint (np_unique a)) [0..<length (np_unique a)]"
    unfolding enumerate_eq_zip map_swap_zip by simp
  have d: "distinct (map fst (zip (map sint (np_unique a)) [0..<length (np_unique a)]))"
    using np_unique_sint_distinct[of a] by simp
  show ?thesis
    unfolding e dict_of_pairs_distinct[OF d] by (simp add: np_unique_sint np_unique_length)
qed

lemma reverse_eq:
  "dict_of_pairs (map (\<lambda>(new, old). (new, sint old)) (enumerate 0 (np_unique a))) =
     zip [0..<card (set a)] (sorted_list_of_set (sint ` set a))"
proof -
  have e: "map (\<lambda>(new, old). (new, sint old)) (enumerate 0 (np_unique a)) =
             zip [0..<length (np_unique a)] (map sint (np_unique a))"
    unfolding enumerate_eq_zip map_second_zip by simp
  have d: "distinct (map fst (zip [0..<length (np_unique a)] (map sint (np_unique a))))"
    by simp
  show ?thesis
    unfolding e dict_of_pairs_distinct[OF d] by (simp add: np_unique_sint np_unique_length)
qed

lemma sorted_ids_length: "length (sorted_list_of_set (sint ` set a)) = card (set (a :: 32 word list))"
  using np_unique_length[of a] np_unique_sint[of a] by (metis length_map)

lemma dom_forward: "length u = n \<Longrightarrow> dom (map_of (zip u [0..<n])) = set u"
  by (rule dom_map_of_zip) simp

lemma dom_reverse: "length u = n \<Longrightarrow> dom (map_of (zip [0..<n] u)) = {0..<n}"
  using dom_map_of_zip[of "[0..<n]" u] by simp

lemma remap_labels_eq:
  "remap_labels labels =
     Inr (map (\<lambda>l. the (map_of (zip (sorted_list_of_set (sint ` set labels))
                                    [0..<card (set labels)]) (sint l))) labels,
          zip (sorted_list_of_set (sint ` set labels)) [0..<card (set labels)],
          zip [0..<card (set labels)] (sorted_list_of_set (sint ` set labels)))"
proof -
  let ?u = "sorted_list_of_set (sint ` set labels)"
  let ?f = "zip ?u [0..<card (set labels)]"
  have found: "dict_index ?f (sint x) = Inr (the (map_of ?f (sint x)))" if "x \<in> set labels" for x
  proof -
    from that have "sint x \<in> set ?u" by simp
    then have "sint x \<in> dom (map_of ?f)" by (simp only: dom_forward[OF sorted_ids_length])
    then obtain i where "map_of ?f (sint x) = Some i" by blast
    then show ?thesis by (simp add: dict_index_def dict_get_def)
  qed
  have "try_map (\<lambda>l. dict_index ?f (sint l)) labels = Inr (map (\<lambda>l. the (map_of ?f (sint l))) labels)"
    by (rule try_map_total) (rule found)
  then show ?thesis
    unfolding remap_labels_def Let_def forward_eq reverse_eq by simp
qed

lemma zip_nth_forward:
  "distinct u \<Longrightarrow> length u = n \<Longrightarrow> k < n \<Longrightarrow> map_of (zip u [0..<n]) (u ! k) = Some k"
  using map_of_zip_nth[of u "[0..<n]" k] by simp

lemma zip_nth_reverse:
  "length u = n \<Longrightarrow> k < n \<Longrightarrow> map_of (zip [0..<n] u) k = Some (u ! k)"
  using map_of_zip_nth[of "[0..<n]" u k] by simp

lemma forward_nth:
  "k < card (set (labels :: 32 word list)) \<Longrightarrow>
   map_of (zip (sorted_list_of_set (sint ` set labels)) [0..<card (set labels)])
     (sorted_list_of_set (sint ` set labels) ! k) = Some k"
  by (rule zip_nth_forward[OF distinct_sorted_list_of_set sorted_ids_length])

lemma reverse_nth:
  "k < card (set (labels :: 32 word list)) \<Longrightarrow>
   map_of (zip [0..<card (set labels)] (sorted_list_of_set (sint ` set labels))) k =
     Some (sorted_list_of_set (sint ` set labels) ! k)"
  by (rule zip_nth_reverse[OF sorted_ids_length])


text \<open>
  C1: for every int32 array of identifiers \<open>remap_labels\<close> returns, and the forward
  and reverse mappings it returns are inverse to each other: the reverse mapping sends
  the position of every observed identifier back to it, the forward mapping sends the
  identifier at every position below the number of distinct identifiers back to that
  position, and both mappings have exactly as many keys as there are distinct
  identifiers in the input.
\<close>

theorem remap_labels_inverse:
  "\<exists>new_labels forward reverse.
     remap_labels labels = Inr (new_labels, forward, reverse) \<and>
     (\<forall>x \<in> set labels. \<exists>i. dict_get forward (sint x) = Some i \<and>
                               dict_get reverse i = Some (sint x)) \<and>
     (\<forall>i < card (set labels). \<exists>x. dict_get reverse i = Some x \<and> dict_get forward x = Some i) \<and>
     dom (dict_get forward) = sint ` set labels \<and>
     dom (dict_get reverse) = {0..<card (set labels)} \<and>
     dict_len forward = card (set labels) \<and>
     dict_len reverse = card (set labels)"
proof -
  let ?u = "sorted_list_of_set (sint ` set labels)"
  let ?n = "card (set labels)"
  let ?f = "zip ?u [0..<?n]"
  let ?r = "zip [0..<?n] ?u"
  note len = sorted_ids_length[of labels]
  have a: "\<forall>x \<in> set labels. \<exists>i. dict_get ?f (sint x) = Some i \<and> dict_get ?r i = Some (sint x)"
  proof
    fix x assume "x \<in> set labels"
    then have "sint x \<in> set ?u" by simp
    then obtain k where k: "k < length ?u" "?u ! k = sint x"
      unfolding in_set_conv_nth by blast
    from k(1) have "k < ?n" unfolding len .
    from forward_nth[OF this] reverse_nth[OF this] k(2)
    show "\<exists>i. dict_get ?f (sint x) = Some i \<and> dict_get ?r i = Some (sint x)"
      by (auto simp: dict_get_def)
  qed
  have b: "\<forall>i < ?n. \<exists>x. dict_get ?r i = Some x \<and> dict_get ?f x = Some i"
    unfolding dict_get_def
  proof (intro allI impI)
    fix i assume "i < ?n"
    from forward_nth[OF this] reverse_nth[OF this]
    show "\<exists>x. map_of ?r i = Some x \<and> map_of ?f x = Some i" by blast
  qed
  have c: "dom (dict_get ?f) = sint ` set labels"
    unfolding dict_get_eq dom_forward[OF len] by simp
  have d: "dom (dict_get ?r) = {0..<?n}"
    unfolding dict_get_eq by (rule dom_reverse[OF len])
  have mf: "map fst ?f = ?u" and mr: "map fst ?r = [0..<?n]"
    using len by (simp_all del: sorted_list_of_set.length_sorted_key_list_of_set)
  have e: "dict_len ?f = ?n"
    unfolding dict_len_def mf using len by (simp add: distinct_remdups_id)
  have f: "dict_len ?r = ?n"
    unfolding dict_len_def mr by simp
  from a b c d e f show ?thesis
    unfolding remap_labels_eq by blast
qed

theorem remap_labels_inverse_witness:
  "\<exists>new_labels forward reverse.
     remap_labels [31, - 5, 31, 90, - 5] = Inr (new_labels, forward, reverse) \<and>
     (\<exists>i. dict_get forward 31 = Some i \<and> dict_get reverse i = Some 31) \<and>
     (\<exists>i. dict_get forward (- 5) = Some i \<and> dict_get reverse i = Some (- 5)) \<and>
     (\<exists>x. dict_get reverse 2 = Some x \<and> dict_get forward x = Some 2) \<and>
     dict_len forward = 3 \<and> dict_len reverse = 3"
proof -
  have c: "card (set [31, - 5, 31, 90, - 5 :: 32 word]) = 3" by (simp add: card_insert_if)
  have s: "sint (31 :: 32 word) = 31" "sint (- 5 :: 32 word) = - 5" by simp_all
  from remap_labels_inverse[of "[31, - 5, 31, 90, - 5]"] obtain new_labels forward reverse where
    r: "remap_labels [31, - 5, 31, 90, - 5] = Inr (new_labels, forward, reverse)"
    and a: "\<forall>x \<in> set [31, - 5, 31, 90, - 5 :: 32 word].
              \<exists>i. dict_get forward (sint x) = Some i \<and> dict_get reverse i = Some (sint x)"
    and b: "\<forall>i < 3. \<exists>x. dict_get reverse i = Some x \<and> dict_get forward x = Some i"
    and l: "dict_len forward = 3" "dict_len reverse = 3"
    unfolding c by blast
  from a have "\<exists>i. dict_get forward (sint (31 :: 32 word)) = Some i \<and>
                   dict_get reverse i = Some (sint (31 :: 32 word))"
    by simp
  then have a1: "\<exists>i. dict_get forward 31 = Some i \<and> dict_get reverse i = Some 31"
    unfolding s .
  from a have "\<exists>i. dict_get forward (sint (- 5 :: 32 word)) = Some i \<and>
                   dict_get reverse i = Some (sint (- 5 :: 32 word))"
    by simp
  then have a2: "\<exists>i. dict_get forward (- 5) = Some i \<and> dict_get reverse i = Some (- 5)"
    unfolding s .
  from b have b2: "\<exists>x. dict_get reverse 2 = Some x \<and> dict_get forward x = Some 2" by simp
  from r a1 a2 b2 l show ?thesis by blast
qed

text \<open>
  C5: \<open>remap_labels\<close> gives every distinct identifier its rank in ascending order:
  the forward mapping sends the \<open>k\<close>-th smallest distinct identifier to \<open>k\<close>, its
  values are exactly the positions below the number of distinct identifiers, and the
  returned labels are the input labels with the forward mapping applied to each, in the
  same order and of the same length.
\<close>

theorem remap_labels_rank:
  "\<exists>new_labels forward reverse.
     remap_labels labels = Inr (new_labels, forward, reverse) \<and>
     (\<forall>k < card (set labels).
        dict_get forward (sorted_list_of_set (sint ` set labels) ! k) = Some k) \<and>
     dom (dict_get forward) = sint ` set labels \<and>
     ran (dict_get forward) = {0..<card (set labels)} \<and>
     length new_labels = length labels \<and>
     map Some new_labels = map (\<lambda>l. dict_get forward (sint l)) labels"
proof -
  let ?u = "sorted_list_of_set (sint ` set labels)"
  let ?n = "card (set labels)"
  let ?f = "zip ?u [0..<?n]"
  note len = sorted_ids_length[of labels]
  have a: "\<forall>k < ?n. dict_get ?f (?u ! k) = Some k"
    using forward_nth[of _ labels] by (simp add: dict_get_def)
  have c: "dom (dict_get ?f) = sint ` set labels"
    unfolding dict_get_eq dom_forward[OF len] by simp
  have d: "ran (dict_get ?f) = {0..<?n}"
    unfolding dict_get_eq using ran_map_of_zip[of ?u "[0..<?n]"] len
    by (simp del: sorted_list_of_set.length_sorted_key_list_of_set)
  have e: "map Some (map (\<lambda>l. the (map_of ?f (sint l))) labels) =
             map (\<lambda>l. dict_get ?f (sint l)) labels"
  proof -
    have "Some (the (map_of ?f (sint l))) = dict_get ?f (sint l)" if "l \<in> set labels" for l
    proof -
      from that have "sint l \<in> set ?u" by simp
      then have "sint l \<in> dom (map_of ?f)" by (simp only: dom_forward[OF len])
      then obtain i where "map_of ?f (sint l) = Some i" by blast
      then show ?thesis by (simp add: dict_get_def)
    qed
    then show ?thesis by simp
  qed
  from a c d e show ?thesis
    unfolding remap_labels_eq by simp
qed

theorem remap_labels_rank_witness:
  "\<exists>forward reverse.
     remap_labels [31, - 5, 31, 90, - 5] = Inr ([1, 0, 1, 2, 0], forward, reverse) \<and>
     dict_get forward (- 5) = Some 0 \<and> dict_get forward 31 = Some 1 \<and>
     dict_get forward 90 = Some 2"
proof -
  have c: "card (set [31, - 5, 31, 90, - 5 :: 32 word]) = 3" by (simp add: card_insert_if)
  have i: "sint ` set [31, - 5, 31, 90, - 5 :: 32 word] = set [31, - 5, 31, 90, - 5]"
    by simp
  have s: "sorted_list_of_set (set [31, - 5, 31, 90, - 5 :: int]) = [- 5, 31, 90]"
    unfolding sorted_list_of_set_sort_remdups by simp
  have m: "map sint [31, - 5, 31, 90, - 5 :: 32 word] = [31, - 5, 31, 90, - 5]" by simp
  from remap_labels_rank[of "[31, - 5, 31, 90, - 5]"] obtain new_labels forward reverse where
    r: "remap_labels [31, - 5, 31, 90, - 5] = Inr (new_labels, forward, reverse)"
    and k: "\<forall>k<3. dict_get forward ([- 5, 31, 90] ! k) = Some k"
    and e: "map Some new_labels = map (\<lambda>l. dict_get forward (sint l)) [31, - 5, 31, 90, - 5 :: 32 word]"
    unfolding c i s by blast
  from k have f: "dict_get forward (- 5) = Some 0" "dict_get forward 31 = Some 1"
      "dict_get forward 90 = Some 2"
    by (auto dest: spec[of _ 0] spec[of _ 1] spec[of _ 2])
  from e have "map Some new_labels = map (dict_get forward) (map sint [31, - 5, 31, 90, - 5 :: 32 word])"
    by (simp only: map_map comp_def)
  then have "map Some new_labels = map (dict_get forward) [31, - 5, 31, 90, - 5]"
    unfolding m .
  with f have "new_labels = [1, 0, 1, 2, 0]" by (auto simp: map_eq_Cons_conv)
  with r f show ?thesis by blast
qed

section \<open>Properties of preprocess\_image\<close>

lemma length_concat_uniform:
  "\<forall>xs \<in> set xss. length xs = n \<Longrightarrow> length (concat xss) = length xss * n"
  by (induction xss) auto

lemma chunks_concat:
  "\<forall>xs \<in> set xss. length xs = n \<Longrightarrow> chunks (length xss) n (concat xss) = xss"
  by (induction xss) auto

lemma reshape_grid:
  assumes "length a = 32" "\<forall>row \<in> set a. length row = 32"
  shows "reshape_1_32_32_1 a = Inr [map (map (\<lambda>x. [x])) a]"
proof -
  have len: "length (concat a) = 1024"
    using length_concat_uniform[OF assms(2)] assms(1) by simp
  have "chunks (length (map (map (\<lambda>x. [x])) a)) 32 (concat (map (map (\<lambda>x. [x])) a))
          = map (map (\<lambda>x. [x])) a"
    by (rule chunks_concat) (use assms(2) in auto)
  then have "chunks 32 32 (map (\<lambda>x. [x]) (concat a)) = map (map (\<lambda>x. [x])) a"
    by (simp add: assms(1) map_concat)
  with len show ?thesis by (simp add: reshape_1_32_32_1_def)
qed

lemma preprocess_image_grid:
  assumes "image_open_L_32 ext (content f) = Inr px"
      and "length px = 32" and "\<forall>row \<in> set px. length row = 32"
  shows "preprocess_image ext f = Inr [map (map (\<lambda>p. [rat_of_nat (unat p) / 255])) px]"
proof -
  let ?a = "map (map (\<lambda>p. rat_of_nat (unat p) / 255)) px"
  have "reshape_1_32_32_1 ?a = Inr [map (map (\<lambda>x. [x])) ?a]"
    by (rule reshape_grid) (use assms in auto)
  then show ?thesis
    using assms(1) by (simp add: preprocess_image_def comp_def)
qed

lemma squeeze_grid: "squeeze [map (map (\<lambda>p. [h p])) px] = map (map h) px"
  by (simp add: squeeze_def comp_def)

lemma preprocess_image_shape:
  assumes "preprocess_image ext f = Inr img_array"
  shows "length (concat (squeeze img_array)) = 1024"
proof -
  from assms obtain a where
    a: "reshape_1_32_32_1 a = Inr img_array"
    by (auto simp: preprocess_image_def Let_def split: sum.splits)
  then have len: "length (concat a) = 1024" and
    img: "img_array = [chunks 32 32 (map (\<lambda>x. [x]) (concat a))]"
    by (auto simp: reshape_1_32_32_1_def Let_def split: if_splits)
  have sq: "concat (map concat (chunks k n (map (\<lambda>x. [x]) xs))) = take (k * n) xs" for k n and xs :: "rat list"
  proof (induction k arbitrary: xs)
    case 0 show ?case by simp
  next
    case (Suc k)
    have "concat (map (\<lambda>x. [x]) (take n xs)) = take n xs" by (induction xs arbitrary: n) (auto simp: take_Cons')
    then show ?case using Suc[of "drop n xs"] by (simp add: take_map drop_map take_add)
  qed
  show ?thesis
    unfolding img squeeze_def using sq[of 32 32 "concat a"] len by simp
qed




section \<open>Properties of predict and health\<close>




lemma dict_len_card: "dict_len d = card (dom (dict_get d))"
  by (simp add: dict_len_def dict_get_eq dom_map_of_conv_image_fst length_remdups_card_conv)

text \<open>
  C10: the health endpoint answers 200 with status \<open>healthy\<close> whatever the globals
  hold, also after a start-up at which both the model and the labels failed to load;
  \<open>model_loaded\<close> and \<open>labels_loaded\<close> tell whether a model is there and whether
  the label table has an entry, and \<open>num_classes\<close> is the number of entries of the label
  table.
\<close>

theorem health_always_healthy:
  "health g =
     ([(''status'', JStr ''healthy''),
       (''model_loaded'', JBool (g_model g \<noteq> None)),
       (''labels_loaded'', JBool (0 < card (dom (dict_get (g_labels g))))),
       (''num_classes'', JNum (rat_of_nat (card (dom (dict_get (g_labels g))))))], 200) \<and>
   health (startup (Inl e1) (Inl e2)) =
     ([(''status'', JStr ''healthy''),
       (''model_loaded'', JBool False),
       (''labels_loaded'', JBool False),
       (''num_classes'', JNum 0)], 200)"
  by (simp add: health_def jsonify_def dict_len_card startup_def dict_get_eq)

theorem health_always_healthy_witness:
  "health (startup (Inl (Exception ''No file or directory found at models/math_ocr_model.h5''))
                   (Inr [(''0'', [(''latex'', ''A''), (''unicode'', ''A'')])])) =
     ([(''status'', JStr ''healthy''),
       (''model_loaded'', JBool False),
       (''labels_loaded'', JBool True),
       (''num_classes'', JNum 1)], 200)"
  using health_always_healthy[of
     "startup (Inl (Exception ''No file or directory found at models/math_ocr_model.h5''))
              (Inr [(''0'', [(''latex'', ''A''), (''unicode'', ''A'')])])"]
  by (simp add: startup_def dict_get_eq)

text \<open>
  C8: when \<open>load_model\<close> raises at start-up the model global is \<open>None\<close>, and from
  then on \<open>predict\<close> answers every request with status 500 and \<open>success\<close> false,
  without calling a model and without raising.
\<close>

theorem predict_without_model:
  "g_model (startup (Inl e) json_load_result) = None \<and>
   predict_try ext (startup (Inl e) json_load_result) req =
     (Inr ([(''success'', JBool False),
            (''error'', JStr ''Model not loaded. Please check server logs.'')], 500), False) \<and>
   resp (predict ext (startup (Inl e) json_load_result) req) =
     ([(''success'', JBool False),
       (''error'', JStr ''Model not loaded. Please check server logs.'')], 500) \<and>
   model_ran (predict ext (startup (Inl e) json_load_result) req) = False"
  by (simp add: startup_def predict_def predict_try_def model_not_loaded_def)

theorem predict_without_model_witness:
  "resp (predict \<lparr>image_open_L_32 = (\<lambda>b. Inl (Exception ''cannot identify image file'')),
                  np_std = (\<lambda>a. 0)\<rparr>
                 (startup (Inl (Exception ''file not found'')) (Inl (Exception ''file not found'')))
                 \<lparr>files = []\<rparr>) =
     ([(''success'', JBool False),
       (''error'', JStr ''Model not loaded. Please check server logs.'')], 500)"
  using predict_without_model[of "Exception ''file not found''" "Inl (Exception ''file not found'')"
      "\<lparr>image_open_L_32 = (\<lambda>b. Inl (Exception ''cannot identify image file'')), np_std = (\<lambda>a. 0)\<rparr>"
      "\<lparr>files = []\<rparr>"]
  by simp

lemma count_concat_replicate:
  "length (filter P (concat (replicate n xs))) = n * length (filter P xs)"
  by (induction n) auto

lemma example_preprocess:
  "preprocess_image (example_ext sd) example_upload =
     Inr [map (map (\<lambda>p. [rat_of_nat (unat p) / 255])) example_pixels]"
  by (rule preprocess_image_grid) (auto simp: example_ext_def example_upload_def example_pixels_def)

lemma example_foreground:
  "foreground_fraction_of (squeeze [map (map (\<lambda>p. [rat_of_nat (unat p) / 255])) example_pixels]) = 1 / 8"
  unfolding squeeze_grid
  by (simp add: foreground_fraction_of_def example_pixels_def
        count_concat_replicate length_concat_uniform)


lemma foreground_fraction_1024:
  assumes "preprocess_image ext file = Inr img_array"
  shows "foreground_fraction_of (squeeze img_array) =
           rat_of_nat (length (filter (\<lambda>x. x < 85 / 100) (concat (squeeze img_array)))) / 1024"
  using preprocess_image_shape[OF assms] by (simp add: foreground_fraction_of_def)

lemma foreground_fraction_off_boundary:
  assumes "preprocess_image ext file = Inr img_array"
  shows "foreground_fraction_of (squeeze img_array) \<noteq> 2 / 100 \<and>
         foreground_fraction_of (squeeze img_array) \<noteq> 60 / 100"
proof -
  define k where "k = length (filter (\<lambda>x. x < 85 / 100) (concat (squeeze img_array)))"
  have ff: "foreground_fraction_of (squeeze img_array) = rat_of_nat k / 1024"
    unfolding k_def by (rule foreground_fraction_1024[OF assms])
  have a: "rat_of_nat k / 1024 \<noteq> 2 / 100"
  proof
    assume "rat_of_nat k / 1024 = 2 / 100"
    then have "rat_of_nat k * 100 = 2048" by (simp add: field_simps)
    then have "rat_of_nat (k * 100) = rat_of_nat 2048" by simp
    then have "k * 100 = 2048" by (simp only: of_nat_eq_iff)
    then show False by presburger
  qed
  have b: "rat_of_nat k / 1024 \<noteq> 60 / 100"
  proof
    assume "rat_of_nat k / 1024 = 60 / 100"
    then have "rat_of_nat k * 100 = 61440" by (simp add: field_simps)
    then have "rat_of_nat (k * 100) = rat_of_nat 61440" by simp
    then have "k * 100 = 61440" by (simp only: of_nat_eq_iff)
    then show False by presburger
  qed
  from a b show ?thesis unfolding ff by simp
qed

text \<open>
  C2: for a request that reaches the pre-filter (a model is loaded, an image with a
  file name is attached and preprocessing returned an array), \<open>predict\<close> answers
  \<open>unrecognized\<close> without calling the model exactly when the standard deviation is
  below 0.05, or the foreground fraction is below 0.02, or the foreground fraction is
  above 0.60; with a standard deviation of at least 0.05 and a foreground fraction from
  0.02 to 0.60, both ends included, the model is called. The foreground fraction is the
  number of the 1024 pixels whose value is below 0.85, divided by 1024.
\<close>

theorem predict_prefilter:
  assumes "g_model g = Some model"
      and "dict_get (files req) ''image'' = Some file" and "filename file \<noteq> []"
      and "preprocess_image ext file = Inr img_array"
  shows "((resp (predict ext g req) =
             ([(''success'', JBool True),
               (''status'', JStr ''unrecognized''),
               (''message'', JStr ''No math symbol recognised.'')], 200) \<and>
           \<not> model_ran (predict ext g req)) \<longleftrightarrow>
          (np_std ext (squeeze img_array) < 5 / 100 \<or>
           foreground_fraction_of (squeeze img_array) < 2 / 100 \<or>
           60 / 100 < foreground_fraction_of (squeeze img_array))) \<and>
         (5 / 100 \<le> np_std ext (squeeze img_array) \<and>
          2 / 100 \<le> foreground_fraction_of (squeeze img_array) \<and>
          foreground_fraction_of (squeeze img_array) \<le> 60 / 100 \<longrightarrow>
            model_ran (predict ext g req)) \<and>
         foreground_fraction_of (squeeze img_array) =
           rat_of_nat (length (filter (\<lambda>x. x < 85 / 100) (concat (squeeze img_array)))) / 1024"
proof -
  let ?reject = "np_std ext (squeeze img_array) < 5 / 100 \<or>
           foreground_fraction_of (squeeze img_array) < 2 / 100 \<or>
           60 / 100 < foreground_fraction_of (squeeze img_array)"
  have rej: "?reject \<Longrightarrow> predict_try ext g req = (Inr unrecognized, False)"
    using assms
    by (simp add: predict_try_def Let_def MIN_STD_DEV_def MIN_FOREGROUND_FRACTION_def
          MAX_FOREGROUND_FRACTION_def)
  have pass: "\<not> ?reject \<Longrightarrow> snd (predict_try ext g req) = True"
    using assms
    by (simp add: predict_try_def Let_def MIN_STD_DEV_def MIN_FOREGROUND_FRACTION_def
          MAX_FOREGROUND_FRACTION_def split: sum.splits list.splits option.splits)
  have ran: "model_ran (predict ext g req) = snd (predict_try ext g req)"
    by (simp add: predict_def split: prod.splits sum.splits)
  have un: "unrecognized = ([(''success'', JBool True),
               (''status'', JStr ''unrecognized''),
               (''message'', JStr ''No math symbol recognised.'')], 200)"
    by (simp add: unrecognized_def jsonify_def)
  have 1: "?reject \<Longrightarrow> resp (predict ext g req) = unrecognized \<and> \<not> model_ran (predict ext g req)"
    using rej by (simp add: predict_def)
  have 2: "\<not> ?reject \<Longrightarrow> model_ran (predict ext g req)"
    using pass ran by simp
  from 1 2 foreground_fraction_1024[OF assms(4)] show ?thesis
    unfolding un by (cases ?reject) auto
qed

theorem predict_prefilter_witness:
  "model_ran (predict (example_ext (5 / 100))
                \<lparr>g_model = Some (example_model (85 / 100)), g_labels = example_labels\<rparr>
                example_request) \<and>
   foreground_fraction_of
     (squeeze [map (map (\<lambda>p. [rat_of_nat (unat p) / 255])) example_pixels]) = 1 / 8"
proof -
  let ?g = "\<lparr>g_model = Some (example_model (85 / 100)), g_labels = example_labels\<rparr>"
  let ?img = "[map (map (\<lambda>p. [rat_of_nat (unat p) / 255])) example_pixels]"
  have h1: "g_model ?g = Some (example_model (85 / 100))" by simp
  have h2: "dict_get (files example_request) ''image'' = Some example_upload"
    by (simp add: example_request_def dict_get_def)
  have h3: "filename example_upload \<noteq> []" by (simp add: example_upload_def)
  have sd: "np_std (example_ext (5 / 100)) (squeeze ?img) = 5 / 100"
    by (simp add: example_ext_def)
  have "5 / 100 \<le> np_std (example_ext (5 / 100)) (squeeze ?img) \<and>
        2 / 100 \<le> foreground_fraction_of (squeeze ?img) \<and>
        foreground_fraction_of (squeeze ?img) \<le> 60 / 100 \<longrightarrow>
        model_ran (predict (example_ext (5 / 100)) ?g example_request)"
    using predict_prefilter[OF h1 h2 h3 example_preprocess[of "5 / 100"]] by blast
  then show ?thesis
    unfolding sd example_foreground by simp
qed


lemma predict_try_after_model:
  assumes "g_model g = Some model"
      and "dict_get (files req) ''image'' = Some file" and "filename file \<noteq> []"
      and "preprocess_image ext file = Inr img_array"
      and "5 / 100 \<le> np_std ext (squeeze img_array)"
      and "2 / 100 \<le> foreground_fraction_of (squeeze img_array)"
      and "foreground_fraction_of (squeeze img_array) \<le> 60 / 100"
      and "model img_array = Inr (predictions_0 # rest)"
      and "np_argmax predictions_0 = Inr top_idx"
  shows "predict_try ext g req =
     (case dict_get (g_labels g) (str_nat top_idx) of
        None \<Rightarrow> (Inr (label_mismatch top_idx), True)
      | Some symbol_info \<Rightarrow>
          if CONFIDENCE_THRESHOLD \<le> predictions_0 ! top_idx
          then if dict_get_default symbol_info ''unicode'' [] = [] \<and>
                  dict_get_default symbol_info ''latex'' [] = []
               then (Inr empty_strings, True)
               else (Inr (recognized (dict_get_default symbol_info ''unicode'' [])
                            (dict_get_default symbol_info ''latex'' [])
                            (predictions_0 ! top_idx)), True)
          else (Inr unrecognized, True))"
  using assms
  by (simp add: predict_try_def Let_def MIN_STD_DEV_def MIN_FOREGROUND_FRACTION_def
        MAX_FOREGROUND_FRACTION_def not_less[symmetric] split: option.splits)

text \<open>
  C4: when the request passes the pre-filter, the model returns its predictions and the
  decimal rendering of the arg-max index is no key of the label table, the body of
  \<open>predict\<close> raises nothing and the response is the \<open>data_error\<close> of a label file
  mismatch, with \<open>success\<close> false and status 500, whatever the confidence is.
\<close>

theorem predict_label_mismatch:
  assumes "g_model g = Some model"
      and "dict_get (files req) ''image'' = Some file" and "filename file \<noteq> []"
      and "preprocess_image ext file = Inr img_array"
      and "5 / 100 \<le> np_std ext (squeeze img_array)"
      and "2 / 100 \<le> foreground_fraction_of (squeeze img_array)"
      and "foreground_fraction_of (squeeze img_array) \<le> 60 / 100"
      and "model img_array = Inr (predictions_0 # rest)"
      and "np_argmax predictions_0 = Inr top_idx"
      and "dict_get (g_labels g) (str_nat top_idx) = None"
  shows "predict_try ext g req =
           (Inr ([(''success'', JBool False),
                  (''status'', JStr ''data_error''),
                  (''error'', JStr (''Label file mismatch. Index '' @ str_nat top_idx @
                                    '' not found.''))], 500), True) \<and>
         resp (predict ext g req) =
           ([(''success'', JBool False),
             (''status'', JStr ''data_error''),
             (''error'', JStr (''Label file mismatch. Index '' @ str_nat top_idx @
                               '' not found.''))], 500)"
  using predict_try_after_model[OF assms(1-9)] assms(10)
  by (simp add: predict_def label_mismatch_def)

text \<open>
  The rounding of a float operation: \<open>floor_log2\<close> is the binary exponent, and a
  finite result is a multiple of the unit in the last place at most half a unit away
  from the exact value.
\<close>

lemma bit_length_bounds:
  "0 < n \<Longrightarrow> 2 ^ (bit_length n - 1) \<le> n \<and> n < 2 ^ bit_length n"
proof (induction n rule: bit_length.induct)
  case (1 n)
  show ?case
  proof (cases "n div 2 = 0")
    case True
    with 1(2) have "n = 1" by (auto simp: div_eq_0_iff)
    then show ?thesis by (simp add: bit_length.simps)
  next
    case False
    let ?b = "bit_length (n div 2)"
    from False 1 have ih: "2 ^ (?b - 1) \<le> n div 2" "n div 2 < 2 ^ ?b" by auto
    have bpos: "0 < ?b" using False by (simp add: bit_length.simps[of "n div 2"])
    have bl: "bit_length n = Suc ?b" using 1(2) by (simp add: bit_length.simps[of n])
    have "(2::nat) ^ ?b = 2 * 2 ^ (?b - 1)" using bpos by (cases ?b) auto
    with ih(1) have lo: "(2::nat) ^ ?b \<le> n" by linarith
    from ih(2) have "Suc (n div 2) \<le> 2 ^ ?b" by simp
    then have "2 * Suc (n div 2) \<le> 2 * 2 ^ ?b" by simp
    moreover have "n < 2 * Suc (n div 2)" by presburger
    ultimately have hi: "n < 2 * 2 ^ ?b" by linarith
    from lo hi show ?thesis unfolding bl by simp
  qed
qed

lemma floor_log2_bounds:
  assumes "0 < x"
  shows "pow2 (floor_log2 x) \<le> x \<and> x < pow2 (floor_log2 x + 1)"
proof (cases "1 \<le> x")
  case True
  let ?n = "nat \<lfloor>x\<rfloor>"
  from True have n: "0 < ?n" by simp
  note b = bit_length_bounds[OF n]
  have bpos: "0 < bit_length ?n" using n by (simp add: bit_length.simps[of ?n])
  have e: "floor_log2 x = int (bit_length ?n - 1)"
    using True bpos by (simp add: floor_log2_def)
  have "rat_of_nat (2 ^ (bit_length ?n - 1)) \<le> rat_of_nat ?n"
    using b by (simp only: of_nat_le_iff)
  also have "rat_of_nat ?n \<le> x" using True by (simp add: of_nat_nat)
  finally have lo: "2 ^ (bit_length ?n - 1) \<le> x" by simp
  have "x < rat_of_int (\<lfloor>x\<rfloor> + 1)" by linarith
  also have "\<dots> = rat_of_nat (Suc ?n)" using True by simp
  also have "\<dots> \<le> rat_of_nat (2 ^ bit_length ?n)"
  proof -
    from b have "Suc ?n \<le> 2 ^ bit_length ?n" by (simp only: Suc_le_eq)
    then show ?thesis by (simp only: of_nat_le_iff)
  qed
  finally have hi: "x < 2 ^ bit_length ?n" by simp
  have p: "(2::rat) ^ bit_length ?n = 2 * 2 ^ (bit_length ?n - 1)"
    using bpos by (cases "bit_length ?n") auto
  from lo hi p show ?thesis
    unfolding e by (simp add: pow2_def nat_add_distrib)
next
  case False
  let ?N = "\<lceil>1 / x\<rceil>"
  let ?m = "nat (?N - 1)"
  from False assms have inv: "1 < 1 / x" by simp
  then have N2: "2 \<le> ?N" by linarith
  then have m: "0 < ?m" by simp
  note b = bit_length_bounds[OF m]
  let ?k = "bit_length ?m"
  have kpos: "0 < ?k" using m by (simp add: bit_length.simps[of ?m])
  have e: "floor_log2 x = - int ?k" using False by (simp add: floor_log2_def)
  from N2 have "0 \<le> ?N - 1" by linarith
  then have im: "int ?m = ?N - 1" by (rule nat_0_le)
  then have iS: "int (Suc ?m) = ?N" by linarith
  have "1 / x \<le> rat_of_int ?N" by linarith
  also have "\<dots> = rat_of_nat (Suc ?m)"
    using iS by (metis of_int_of_nat_eq)
  also have "\<dots> \<le> rat_of_nat (2 ^ ?k)"
  proof -
    from b have "Suc ?m \<le> 2 ^ ?k" by (simp only: Suc_le_eq)
    then show ?thesis by (simp only: of_nat_le_iff)
  qed
  finally have "1 / x \<le> 2 ^ ?k" by simp
  with assms have lo: "1 / 2 ^ ?k \<le> x" by (simp add: field_simps)
  have "rat_of_nat (2 ^ (?k - 1)) \<le> rat_of_nat ?m" using b by (simp only: of_nat_le_iff)
  also have "\<dots> = rat_of_int (?N - 1)"
    using im by (metis of_int_of_nat_eq)
  also have "\<dots> < 1 / x" by linarith
  finally have "2 ^ (?k - 1) < 1 / x" by simp
  with assms have hi: "x < 1 / 2 ^ (?k - 1)" by (simp add: field_simps)
  show ?thesis
  proof (cases "?k = 1")
    case True
    with lo hi show ?thesis unfolding e by (simp add: pow2_def)
  next
    case False
    with kpos have "2 \<le> ?k" by simp
    then have n: "nat (int ?k - 1) = ?k - 1" by simp
    from \<open>2 \<le> ?k\<close> lo hi show ?thesis unfolding e by (simp add: pow2_def n)
  qed
qed


lemma round_half_even_nearest: "\<bar>rat_of_int (round_half_even x) - x\<bar> \<le> 1 / 2"
proof -
  let ?f = "\<lfloor>x\<rfloor>"
  let ?d = "x - rat_of_int ?f"
  have d: "0 \<le> ?d" "?d < 1" by linarith+
  consider "?d < 1 / 2" | "1 / 2 < ?d" | "?d = 1 / 2" by linarith
  then show ?thesis
  proof cases
    case 1
    then have e: "round_half_even x = ?f" by (simp add: round_half_even_def Let_def)
    from 1 d show ?thesis unfolding e abs_le_iff by (intro conjI) linarith+
  next
    case 2
    then have e: "round_half_even x = ?f + 1" by (simp add: round_half_even_def Let_def)
    from 2 d show ?thesis unfolding e of_int_add of_int_1 abs_le_iff by (intro conjI) linarith+
  next
    case 3
    then have "round_half_even x = ?f \<or> round_half_even x = ?f + 1"
      by (simp add: round_half_even_def Let_def)
    then show ?thesis
    proof
      assume e: "round_half_even x = ?f"
      from 3 show ?thesis unfolding e abs_le_iff by (intro conjI) linarith+
    next
      assume e: "round_half_even x = ?f + 1"
      from 3 show ?thesis unfolding e of_int_add of_int_1 abs_le_iff by (intro conjI) linarith+
    qed
  qed
qed

lemma pow2_pos: "0 < pow2 k"
  by (simp add: pow2_def)

lemma round_positive_nearest:
  assumes "round_positive x = Finite r"
  shows "\<bar>r - x\<bar> \<le> pow2 (max (floor_log2 x) (- 1022) - 52) / 2 \<and>
         (\<exists>m. r = rat_of_int m * pow2 (max (floor_log2 x) (- 1022) - 52))"
proof -
  let ?ulp = "pow2 (max (floor_log2 x) (- 1022) - 52)"
  let ?m = "round_half_even (x / ?ulp)"
  from assms have r: "r = rat_of_int ?m * ?ulp"
    by (simp add: round_positive_def Let_def split: if_splits)
  have u: "0 < ?ulp" by (rule pow2_pos)
  have "\<bar>rat_of_int ?m - x / ?ulp\<bar> * ?ulp \<le> 1 / 2 * ?ulp"
    using round_half_even_nearest[of "x / ?ulp"] u by (simp only: mult_le_cancel_right_pos)
  moreover have "\<bar>rat_of_int ?m - x / ?ulp\<bar> * ?ulp = \<bar>rat_of_int ?m * ?ulp - x\<bar>"
  proof -
    have "\<bar>rat_of_int ?m - x / ?ulp\<bar> * ?ulp = \<bar>(rat_of_int ?m - x / ?ulp) * ?ulp\<bar>"
      using u by (simp add: abs_mult)
    also have "(rat_of_int ?m - x / ?ulp) * ?ulp = rat_of_int ?m * ?ulp - x"
      using u by (simp add: left_diff_distrib)
    finally show ?thesis .
  qed
  ultimately show ?thesis unfolding r by auto
qed



text \<open>
  The double 0.854 is \<open>7692148163548807 / 2 ^ 53\<close>; its float product with 100 is
  the double 85.39999999999999, not 85.4.
\<close>

lemma float_mul_rounds:
  "float_mul (7692148163548807 / 2 ^ 53) 100 = Finite (6009490752772505 / 2 ^ 46)"
  by code_simp


lemma example_ready:
  "dict_get (files example_request) ''image'' = Some example_upload"
  "filename example_upload \<noteq> []"
  "5 / 100 \<le> np_std (example_ext (1 / 10))
      (squeeze [map (map (\<lambda>p. [rat_of_nat (unat p) / 255])) example_pixels])"
  "2 / 100 \<le> foreground_fraction_of
      (squeeze [map (map (\<lambda>p. [rat_of_nat (unat p) / 255])) example_pixels])"
  "foreground_fraction_of
      (squeeze [map (map (\<lambda>p. [rat_of_nat (unat p) / 255])) example_pixels]) \<le> 60 / 100"
  unfolding example_foreground
  by (simp_all add: example_request_def example_upload_def dict_get_def example_ext_def)

theorem predict_label_mismatch_witness:
  "resp (predict (example_ext (1 / 10))
           \<lparr>g_model = Some (example_model (99 / 100)),
              g_labels = [(''0'', [(''latex'', ''A''), (''unicode'', ''A'')])]\<rparr>
           example_request) =
     ([(''success'', JBool False),
       (''status'', JStr ''data_error''),
       (''error'', JStr ''Label file mismatch. Index 1 not found.'')], 500)"
proof -
  let ?g = "\<lparr>g_model = Some (example_model (99 / 100)),
              g_labels = [(''0'', [(''latex'', ''A''), (''unicode'', ''A'')])]\<rparr>"
  have h1: "g_model ?g = Some (example_model (99 / 100))" by simp
  have m: "example_model (99 / 100) [map (map (\<lambda>p. [rat_of_nat (unat p) / 255])) example_pixels]
             = Inr ([1 - 99 / 100, 99 / 100] # [])"
    by (simp add: example_model_def)
  have am: "np_argmax [1 - 99 / 100, 99 / 100] = Inr 1"
    by (simp add: np_argmax_def)
  have s1: "str_nat 1 = ''1''" by (simp add: str_nat.simps digit_char_def)
  have l: "dict_get (g_labels ?g) (str_nat 1) = None"
    unfolding s1 by (simp add: dict_get_def)
  show ?thesis
    using predict_label_mismatch[OF h1 example_ready(1,2) example_preprocess example_ready(3-5) m am l]
    unfolding s1 by simp
qed


section \<open>Properties of the decimal rendering\<close>

lemma digit_val_digit_char: "d < 10 \<Longrightarrow> digit_val (digit_char d) = d"
proof -
  assume "d < 10"
  then have "d \<in> {0, 1, 2, 3, 4, 5, 6, 7, 8, 9}" by auto
  then show ?thesis by (auto simp: digit_val_def digit_char_def)
qed

lemma digit_char_not_minus: "d < 10 \<Longrightarrow> digit_char d \<noteq> CHR ''-''"
proof -
  assume "d < 10"
  then have "d \<in> {0, 1, 2, 3, 4, 5, 6, 7, 8, 9}" by auto
  then show ?thesis by (auto simp: digit_char_def)
qed

lemma nat_of_str_str_nat: "nat_of_str (str_nat n) = n"
proof (induction n rule: str_nat.induct)
  case (1 n)
  show ?case
  proof (cases "n < 10")
    case True
    then show ?thesis by (simp add: str_nat.simps[of n] nat_of_str_def digit_val_digit_char)
  next
    case False
    with 1 have "nat_of_str (str_nat (n div 10)) = n div 10" by simp
    with False show ?thesis
      by (simp add: str_nat.simps[of n] nat_of_str_def digit_val_digit_char)
  qed
qed

lemma str_nat_inj: "str_nat m = str_nat n \<Longrightarrow> m = n"
  by (metis nat_of_str_str_nat)

lemma str_nat_no_minus: "CHR ''-'' \<notin> set (str_nat n)"
proof (induction n rule: str_nat.induct)
  case (1 n)
  show ?case
  proof (cases "n < 10")
    case True
    then show ?thesis using digit_char_not_minus[of n] by (simp add: str_nat.simps[of n])
  next
    case False
    with 1 have "CHR ''-'' \<notin> set (str_nat (n div 10))" by simp
    with False show ?thesis using digit_char_not_minus[of "n mod 10"]
      by (simp add: str_nat.simps[of n])
  qed
qed

lemma str_int_inj: "str_int i = str_int j \<Longrightarrow> i = j"
proof -
  assume e: "str_int i = str_int j"
  have neq: "CHR ''-'' # s \<noteq> str_nat n" for s n
    using str_nat_no_minus[of n] by (cases "str_nat n") auto
  show ?thesis
  proof (cases "i < 0"; cases "j < 0")
    assume "i < 0" "j < 0"
    with e have "nat (- i) = nat (- j)" by (simp add: str_int_def str_nat_inj)
    with \<open>i < 0\<close> \<open>j < 0\<close> show ?thesis by simp
  next
    assume "i < 0" "\<not> j < 0"
    with e neq show ?thesis by (simp add: str_int_def)
  next
    assume "\<not> i < 0" "j < 0"
    with e neq[of "str_nat (nat (- j))" "nat i"] show ?thesis by (simp add: str_int_def)
  next
    assume "\<not> i < 0" "\<not> j < 0"
    with e have "nat i = nat j" by (simp add: str_int_def str_nat_inj)
    with \<open>\<not> i < 0\<close> \<open>\<not> j < 0\<close> show ?thesis by simp
  qed
qed


section \<open>Properties of create\_label\_mapping\<close>

lemma dict_contains_iff: "dict_contains k d \<longleftrightarrow> map_of d k \<noteq> None"
  by (simp add: dict_contains_def map_of_eq_None_iff)

lemma label_rows_step:
  "label_rows (r # rows) acc =
     (case row_symbol_id r of
        None \<Rightarrow> Inl ValueError
      | Some i \<Rightarrow>
          if map_of acc (str_int i) \<noteq> None then label_rows rows acc
          else label_rows rows (AList.update (str_int i) (row_entry r) acc))"
  by (simp add: py_int_def Let_def dict_contains_iff dict_set_def row_entry_def
        dict_get_default_def split: option.splits)

declare label_rows.simps(2) [simp del]

lemma label_rows_ids:
  "label_rows rows acc = Inr lm \<Longrightarrow> \<forall>r \<in> set rows. row_symbol_id r \<noteq> None"
proof (induction rows arbitrary: acc)
  case Nil
  then show ?case by simp
next
  case (Cons r rows)
  from Cons.prems obtain i where i: "row_symbol_id r = Some i"
    by (auto simp: label_rows_step split: option.splits)
  with Cons.prems Cons.IH show ?case
    by (auto simp: label_rows_step split: if_splits)
qed

lemma label_rows_returns:
  "\<forall>r \<in> set rows. row_symbol_id r \<noteq> None \<Longrightarrow> \<exists>lm. label_rows rows acc = Inr lm"
proof (induction rows arbitrary: acc)
  case Nil
  then show ?case by simp
next
  case (Cons r rows)
  then obtain i where i: "row_symbol_id r = Some i" by auto
  from Cons show ?case by (simp add: label_rows_step i)
qed

lemma label_rows_distinct:
  "label_rows rows acc = Inr lm \<Longrightarrow> distinct (map fst acc) \<Longrightarrow> distinct (map fst lm)"
proof (induction rows arbitrary: acc)
  case Nil
  then show ?case by simp
next
  case (Cons r rows)
  from Cons.prems obtain i where i: "row_symbol_id r = Some i"
    by (auto simp: label_rows_step split: option.splits)
  show ?case
  proof (cases "map_of acc (str_int i) \<noteq> None")
    case True
    with Cons.prems i have "label_rows rows acc = Inr lm" by (simp add: label_rows_step)
    from Cons.IH[OF this Cons.prems(2)] show ?thesis .
  next
    case False
    with Cons.prems i have "label_rows rows (AList.update (str_int i) (row_entry r) acc) = Inr lm"
      by (simp add: label_rows_step)
    from Cons.IH[OF this] Cons.prems(2) show ?thesis by (simp add: distinct_update)
  qed
qed

lemma label_rows_lookup:
  "label_rows rows acc = Inr lm \<Longrightarrow>
   map_of lm k =
     (case map_of acc k of
        Some e \<Rightarrow> Some e
      | None \<Rightarrow> map_option row_entry
                 (find (\<lambda>r. map_option str_int (row_symbol_id r) = Some k) rows))"
proof (induction rows arbitrary: acc)
  case Nil
  then show ?case by (simp split: option.splits)
next
  case (Cons r rows)
  from Cons.prems obtain i where i: "row_symbol_id r = Some i"
    by (auto simp: label_rows_step split: option.splits)
  show ?case
  proof (cases "map_of acc (str_int i) \<noteq> None")
    case True
    with Cons.prems i have "label_rows rows acc = Inr lm" by (simp add: label_rows_step)
    from Cons.IH[OF this] True i show ?thesis by (auto split: option.splits)
  next
    case False
    with Cons.prems i have "label_rows rows (AList.update (str_int i) (row_entry r) acc) = Inr lm"
      by (simp add: label_rows_step)
    from Cons.IH[OF this] False i show ?thesis
      by (auto simp: update_conv' split: option.splits)
  qed
qed

lemma find_first_index:
  assumes "j < length rows" "P (rows ! j)" "\<forall>j' < j. \<not> P (rows ! j')"
  shows "find P rows = Some (rows ! j)"
  using assms
proof (induction rows arbitrary: j)
  case Nil
  then show ?case by simp
next
  case (Cons r rows)
  show ?case
  proof (cases j)
    case 0
    with Cons.prems show ?thesis by simp
  next
    case (Suc j0)
    with Cons.prems have "\<not> P r" by auto
    moreover have "find P rows = Some (rows ! j0)"
      using Cons.prems Suc by (intro Cons.IH) auto
    ultimately show ?thesis by (simp add: Suc)
  qed
qed

lemma map_of_fold_update:
  "map_of (fold (\<lambda>(k, v). AList.update k v) ps acc) x =
     (case map_of (rev ps) x of Some y \<Rightarrow> Some y | None \<Rightarrow> map_of acc x)"
proof (induction ps arbitrary: acc)
  case Nil
  then show ?case by simp
next
  case (Cons p ps)
  obtain k v where p: "p = (k, v)" by (cases p)
  show ?case
    by (auto simp: p Cons.IH update_conv' map_add_def split: option.splits)
qed

lemma dict_get_dict_of_pairs: "dict_get (dict_of_pairs ps) k = map_of (rev ps) k"
proof -
  have feq: "(\<lambda>(k, v) d. dict_set d k v) = (\<lambda>(k, v). AList.update k v)"
    by (auto simp: dict_set_def fun_eq_iff)
  show ?thesis
    unfolding dict_get_def dict_of_pairs_def feq map_of_fold_update
    by (simp split: option.splits)
qed

lemma create_label_mapping_returns:
  "(\<exists>label_map. create_label_mapping labels_csv = Inr label_map) \<longleftrightarrow>
   (\<forall>r \<in> set labels_csv. row_symbol_id r \<noteq> None)"
  using label_rows_ids[of labels_csv "[]"] label_rows_returns[of labels_csv "[]"]
  by (auto simp: create_label_mapping_def)

lemma create_label_mapping_keys:
  assumes "create_label_mapping labels_csv = Inr label_map"
  shows "set (map fst label_map) = {str_int i | i. Some i \<in> row_symbol_id ` set labels_csv}"
proof -
  have l: "map_of label_map k =
      map_option row_entry (find (\<lambda>r. map_option str_int (row_symbol_id r) = Some k) labels_csv)" for k
    using label_rows_lookup[of labels_csv "[]" label_map k] assms
    by (simp add: create_label_mapping_def)
  have "k \<in> dom (map_of label_map) \<longleftrightarrow> (\<exists>i. k = str_int i \<and> Some i \<in> row_symbol_id ` set labels_csv)" for k
  proof
    assume "k \<in> dom (map_of label_map)"
    then obtain r where "find (\<lambda>r. map_option str_int (row_symbol_id r) = Some k) labels_csv = Some r"
      unfolding dom_def l by auto
    then have r: "r \<in> set labels_csv" "map_option str_int (row_symbol_id r) = Some k"
      by (auto simp: find_Some_iff)
    then obtain a where a: "row_symbol_id r = Some a" "k = str_int a"
      by (cases "row_symbol_id r") auto
    from r(1) a(1) have "Some a \<in> row_symbol_id ` set labels_csv" by (metis imageI)
    with a(2) show "\<exists>i. k = str_int i \<and> Some i \<in> row_symbol_id ` set labels_csv"
      by blast
  next
    assume "\<exists>i. k = str_int i \<and> Some i \<in> row_symbol_id ` set labels_csv"
    then obtain i r where "k = str_int i" "r \<in> set labels_csv" "row_symbol_id r = Some i" by force
    then have "\<exists>r \<in> set labels_csv. map_option str_int (row_symbol_id r) = Some k" by force
    then have "find (\<lambda>r. map_option str_int (row_symbol_id r) = Some k) labels_csv \<noteq> None"
      unfolding find_None_iff by blast
    then show "k \<in> dom (map_of label_map)" unfolding dom_def l by auto
  qed
  then have "dom (map_of label_map) = {str_int i | i. Some i \<in> row_symbol_id ` set labels_csv}"
    by blast
  then show ?thesis by (simp add: dom_map_of_conv_image_fst)
qed


text \<open>
  C6: the label map that \<open>create_label_mapping\<close> returns is keyed by the decimal
  renderings of the identifiers of the table, each key once, with as many entries as
  there are distinct identifiers; the entry of an identifier comes from the first row
  that has it: its LaTeX field is the string of that row's LaTeX cell, and its Unicode
  field is the string of that row's Unicode value unless that string is empty or
  \<open>"nan"\<close>, in which case it is the static table's value for the LaTeX string when
  there is one and the empty string otherwise.
\<close>

theorem create_label_mapping_first_row:
  assumes "create_label_mapping labels_csv = Inr label_map"
  shows "distinct (map fst label_map) \<and>
         set (map fst label_map) = {str_int i | i. Some i \<in> row_symbol_id ` set labels_csv} \<and>
         dict_len label_map = card {i. Some i \<in> row_symbol_id ` set labels_csv} \<and>
         (\<forall>j < length labels_csv. \<forall>i.
            row_symbol_id (labels_csv ! j) = Some i \<and>
            (\<forall>j' < j. row_symbol_id (labels_csv ! j') \<noteq> Some i) \<longrightarrow>
            dict_get label_map (str_int i) =
              Some [(''latex'', py_str (row_latex (labels_csv ! j))),
                    (''unicode'',
                       if py_str (row_get_unicode (labels_csv ! j)) = [] \<or>
                          py_str (row_get_unicode (labels_csv ! j)) = ''nan''
                       then (case dict_get latex_to_unicode (py_str (row_latex (labels_csv ! j))) of
                               None \<Rightarrow> [] | Some glyph \<Rightarrow> glyph)
                       else py_str (row_get_unicode (labels_csv ! j)))])"
proof -
  have d: "distinct (map fst label_map)"
    using label_rows_distinct[of labels_csv "[]" label_map] assms
    by (simp add: create_label_mapping_def)
  note k = create_label_mapping_keys[OF assms]
  have inj: "inj_on str_int A" for A
    by (rule inj_onI) (rule str_int_inj)
  have "dict_len label_map = card (set (map fst label_map))"
    by (simp add: dict_len_def length_remdups_card_conv)
  also have "\<dots> = card (str_int ` {i. Some i \<in> row_symbol_id ` set labels_csv})"
    unfolding k by (rule arg_cong[where f = card]) auto
  also have "\<dots> = card {i. Some i \<in> row_symbol_id ` set labels_csv}"
    by (rule card_image) (rule inj)
  finally have c: "dict_len label_map = card {i. Some i \<in> row_symbol_id ` set labels_csv}" .
  have l: "map_of label_map k =
      map_option row_entry (find (\<lambda>r. map_option str_int (row_symbol_id r) = Some k) labels_csv)" for k
    using label_rows_lookup[of labels_csv "[]" label_map k] assms
    by (simp add: create_label_mapping_def)
  have f: "dict_get label_map (str_int i) = Some (row_entry (labels_csv ! j))"
    if "j < length labels_csv" "row_symbol_id (labels_csv ! j) = Some i"
       "\<forall>j' < j. row_symbol_id (labels_csv ! j') \<noteq> Some i" for i j
  proof -
    have "find (\<lambda>r. map_option str_int (row_symbol_id r) = Some (str_int i)) labels_csv
            = Some (labels_csv ! j)"
    proof (rule find_first_index[OF that(1)])
      show "map_option str_int (row_symbol_id (labels_csv ! j)) = Some (str_int i)"
        using that(2) by simp
      show "\<forall>j'<j. map_option str_int (row_symbol_id (labels_csv ! j')) \<noteq> Some (str_int i)"
        using that(3) by (auto dest: str_int_inj)
    qed
    then show ?thesis by (simp add: dict_get_def l)
  qed
  from d k c f show ?thesis
    by (simp add: row_entry_def)
qed


lemma str_int_examples:
  "str_int 31 = ''31''" "str_int 7 = ''7''" "str_int 9 = ''9''" "str_int 10 = ''10''"
  "str_int 1 = ''1''"
  by (simp_all add: str_int_def str_nat.simps digit_char_def)

lemma latex_to_unicode_examples:
  "dict_get latex_to_unicode (cmd ''alpha'') = Some [CHR 0xCE, CHR 0xB1]"
  "dict_get latex_to_unicode ''A'' = Some ''A''"
  "dict_get latex_to_unicode ''nan'' = None"
  "dict_get latex_to_unicode [] = None"
  by (simp_all add: latex_to_unicode_def dict_get_dict_of_pairs cmd_def)

lemma example_table_result: "create_label_mapping example_table = Inr example_label_map"
  by (simp add: create_label_mapping_def example_table_def example_label_map_def
        label_rows_step str_int_examples row_entry_def row_get_unicode_def
        latex_to_unicode_examples)


theorem create_label_mapping_first_row_witness:
  "create_label_mapping example_table = Inr example_label_map \<and>
   distinct (map fst example_label_map) \<and>
   dict_get example_label_map ''31'' =
     Some [(''latex'', cmd ''alpha''), (''unicode'', [CHR 0xCE, CHR 0xB1])] \<and>
   dict_get example_label_map ''7'' = Some [(''latex'', ''A''), (''unicode'', ''A'')]"
proof -
  note t = create_label_mapping_first_row[OF example_table_result]
  from t have d: "distinct (map fst example_label_map)" by blast
  from t have f: "\<And>j i. j < length example_table \<Longrightarrow>
            row_symbol_id (example_table ! j) = Some i \<Longrightarrow>
            (\<forall>j' < j. row_symbol_id (example_table ! j') \<noteq> Some i) \<Longrightarrow>
            dict_get example_label_map (str_int i) =
              Some [(''latex'', py_str (row_latex (example_table ! j))),
                    (''unicode'',
                       if py_str (row_get_unicode (example_table ! j)) = [] \<or>
                          py_str (row_get_unicode (example_table ! j)) = ''nan''
                       then (case dict_get latex_to_unicode (py_str (row_latex (example_table ! j))) of
                               None \<Rightarrow> [] | Some glyph \<Rightarrow> glyph)
                       else py_str (row_get_unicode (example_table ! j)))]"
    by blast
  have a: "dict_get example_label_map (str_int 31) =
     Some [(''latex'', cmd ''alpha''), (''unicode'', [CHR 0xCE, CHR 0xB1])]"
    using f[of 0 31]
    by (simp add: example_table_def row_get_unicode_def latex_to_unicode_examples)
  have b: "dict_get example_label_map (str_int 7) = Some [(''latex'', ''A''), (''unicode'', ''A'')]"
    using f[of 1 7]
    by (simp add: example_table_def row_get_unicode_def latex_to_unicode_examples less_Suc_eq)
  from d a b example_table_result show ?thesis
    by (simp add: str_int_examples)
qed





end
